theory Spec2Isabelle
  imports Main "HOL-Library.Char_ord" "HOL-Library.List_Lexorder" "HOL-Library.Sublist"
begin

section \<open>The event system auditor (tools/audit\_event\_system.py)\<close>

text \<open>
  A shallow embedding of \<^verbatim>\<open>EventSystemAuditor\<close>. A Python \<^verbatim>\<open>str\<close> is a
  \<open>string\<close> holding its UTF-8 bytes: equality is preserved, and the bytewise
  lexicographic order of \<^theory_text>\<open>List_Lexorder\<close> over \<^theory_text>\<open>Char_ord\<close> is the code
  point order that \<^verbatim>\<open>sorted\<close> uses. The counters are Python's unbounded
  integers, never negative, hence \<open>nat\<close>. The \<^verbatim>\<open>print\<close> calls change no
  state and are left out, and with them \<^verbatim>\<open>print_summary\<close>, which only prints;
  everything that reaches \<^verbatim>\<open>self.results\<close> is kept.
\<close>

subsection \<open>ValidationResult\<close>

record validation_result =
  passed :: nat
  failed :: nat
  warnings :: nat
  errors :: "string list"

definition new_result :: validation_result where
  "new_result = \<lparr>passed = 0, failed = 0, warnings = 0, errors = []\<rparr>"

text \<open>
  The two message prefixes, byte for byte as the source file holds them: the code points
  U+201A U+00F9 U+00E5 in front of an error of the payload and GUID passes, and
  U+201A U+00F6 U+2020 U+00D4 U+220F U+00E8 and two spaces in front of every warning.
\<close>

definition error_mark :: string where
  "error_mark = [CHR 0xE2, CHR 0x80, CHR 0x9A, CHR 0xC3, CHR 0xB9, CHR 0xC3, CHR 0xA5]"

definition warning_mark :: string where
  "warning_mark =
     [CHR 0xE2, CHR 0x80, CHR 0x9A, CHR 0xC3, CHR 0xB6, CHR 0xE2, CHR 0x80, CHR 0xA0,
      CHR 0xC3, CHR 0x94, CHR 0xE2, CHR 0x88, CHR 0x8F, CHR 0xC3, CHR 0xA8]"

definition add_error :: "string \<Rightarrow> validation_result \<Rightarrow> validation_result" where
  "add_error msg r = r\<lparr>errors := errors r @ [msg], failed := failed r + 1\<rparr>"

definition add_pass :: "validation_result \<Rightarrow> validation_result" where
  "add_pass r = r\<lparr>passed := passed r + 1\<rparr>"

definition add_warning :: "string \<Rightarrow> validation_result \<Rightarrow> validation_result" where
  "add_warning msg r =
     r\<lparr>errors := errors r @ [warning_mark @ ''  '' @ msg], warnings := warnings r + 1\<rparr>"

definition is_success :: "validation_result \<Rightarrow> bool" where
  "is_success r = (failed r = 0)"

subsection \<open>Formatting\<close>

text \<open>\<^verbatim>\<open>str(n)\<close> of a non-negative integer, as an f-string prints it.\<close>

fun str_nat :: "nat \<Rightarrow> string" where
  "str_nat n =
     (if n < 10 then [''0123456789'' ! n]
      else str_nat (n div 10) @ [''0123456789'' ! (n mod 10)])"

declare str_nat.simps [simp del]

text \<open>\<^verbatim>\<open>sep.join(xs)\<close>.\<close>

fun join :: "string \<Rightarrow> string list \<Rightarrow> string" where
  "join sep [] = []"
| "join sep [x] = x"
| "join sep (x # y # ys) = x @ sep @ join sep (y # ys)"

subsection \<open>The data the auditor holds\<close>

text \<open>
  \<^verbatim>\<open>json.loads\<close> returns a Python value. An object is a \<^verbatim>\<open>dict\<close> in insertion
  order: an association list whose keys are distinct. A float keeps its literal, which
  the auditor never reads.
\<close>

datatype json =
  JNull
  | JBool bool
  | JInt int
  | JFloat string
  | JString string
  | JArray "json list"
  | JObject "(string \<times> json) list"

type_synonym dict = "(string \<times> json) list"

definition dict_keys :: "dict \<Rightarrow> string list" where
  "dict_keys d = map fst d"

text \<open>\<^verbatim>\<open>key in d\<close> and \<^verbatim>\<open>d.get(key)\<close>.\<close>

definition dict_in :: "string \<Rightarrow> dict \<Rightarrow> bool" where
  "dict_in k d = (k \<in> set (dict_keys d))"

definition dict_get :: "dict \<Rightarrow> string \<Rightarrow> json option" where
  "dict_get d k = map_of d k"

record go_struct_field =
  field_name :: string
  go_type :: string
  json_name :: string
  is_required :: bool

text \<open>
  \<^verbatim>\<open>BrunoEvent\<close>. Of \<^verbatim>\<open>file_path\<close> the auditor reads only \<^verbatim>\<open>.name\<close> once the
  file is parsed, so the event keeps that. \<^verbatim>\<open>event_type\<close> is declared \<^verbatim>\<open>str\<close>.
\<close>

record bruno_event =
  file_name :: string
  event_name :: string
  event_type :: string
  payload :: dict

record auditor =
  go_fields :: "string \<rightharpoonup> go_struct_field"
  bruno_events :: "bruno_event list"
  event_types_go :: "string set"
  event_types_bruno :: "string set"
  results :: validation_result

definition new_auditor :: auditor where
  "new_auditor =
     \<lparr>go_fields = Map.empty, bruno_events = [], event_types_go = {},
      event_types_bruno = {}, results = new_result\<rparr>"

subsection \<open>validate\_event\_counts\<close>

definition expected_count :: nat where
  "expected_count = 105"

definition count_mismatch_msg :: "nat \<Rightarrow> nat \<Rightarrow> nat \<Rightarrow> nat \<Rightarrow> string" where
  "count_mismatch_msg go_count bruno_count bruno_file_count expected =
     ''Event count mismatch: Go='' @ str_nat go_count
     @ '', Bruno Types='' @ str_nat bruno_count
     @ '', Bruno Files='' @ str_nat bruno_file_count
     @ '', Expected='' @ str_nat expected"

definition missing_msg :: "string \<Rightarrow> string" where
  "missing_msg event = ''Event type '' @ [CHR 0x27] @ event @ [CHR 0x27] @ '' in Go but missing in Bruno''"

definition extra_msg :: "string \<Rightarrow> string" where
  "extra_msg event = ''Event type '' @ [CHR 0x27] @ event @ [CHR 0x27] @ '' in Bruno but not in Go enum''"

text \<open>The first half of the function: the three counts against the expected one.\<close>

definition reconcile_counts :: "auditor \<Rightarrow> auditor" where
  "reconcile_counts a =
     (let go_count = card (event_types_go a);
          bruno_count = card (event_types_bruno a);
          bruno_file_count = length (bruno_events a);
          all_match = (go_count = expected_count \<and> bruno_count = expected_count
                       \<and> bruno_file_count = expected_count)
      in if all_match then a\<lparr>results := add_pass (results a)\<rparr>
         else a\<lparr>results :=
                 add_error (count_mismatch_msg go_count bruno_count bruno_file_count expected_count)
                   (results a)\<rparr>)"

text \<open>
  The second half: the two set differences, each walked in sorted order. An empty
  difference skips its loop, which is what the loop over the empty list does.
\<close>

definition report_coverage :: "auditor \<Rightarrow> auditor" where
  "report_coverage a =
     (let missing_in_bruno = event_types_go a - event_types_bruno a;
          extra_in_bruno = event_types_bruno a - event_types_go a;
          r1 = fold (\<lambda>event. add_error (missing_msg event))
                 (sorted_list_of_set missing_in_bruno) (results a);
          r2 = fold (\<lambda>event. add_error (extra_msg event))
                 (sorted_list_of_set extra_in_bruno) r1
      in a\<lparr>results := r2\<rparr>)"

definition validate_event_counts :: "auditor \<Rightarrow> auditor" where
  "validate_event_counts a = report_coverage (reconcile_counts a)"

subsection \<open>validate\_bruno\_payloads\<close>

text \<open>
  The three local lists and \<^verbatim>\<open>self.results\<close>, threaded through the two loops.
\<close>

record payload_scan =
  field_mismatches :: "(string \<times> string \<times> string) list"
  unknown_fields :: "(string \<times> string) list"
  missing_type :: "string list"
  scan_results :: validation_result

definition missing_type_msg :: "string \<Rightarrow> string" where
  "missing_type_msg fname =
     error_mark @ '' '' @ fname @ '': Missing required '' @ [CHR 0x27] @ ''type'' @ [CHR 0x27] @ '' field''"

definition event_type_msg :: "string \<Rightarrow> string" where
  "event_type_msg fname =
     error_mark @ '' '' @ fname @ '': Uses '' @ [CHR 0x27] @ ''event_type'' @ [CHR 0x27]
     @ '' instead of '' @ [CHR 0x27] @ ''type'' @ [CHR 0x27]"

definition ambiguous_guid_msg :: "string \<Rightarrow> string" where
  "ambiguous_guid_msg fname =
     error_mark @ '' '' @ fname @ '': Ambiguous '' @ [CHR 0x27] @ ''guid'' @ [CHR 0x27]
     @ '' field (should be player_guid, attacker_guid, or victim_guid)''"

definition unknown_field_msg :: "string \<Rightarrow> string \<Rightarrow> string" where
  "unknown_field_msg fname fld =
     error_mark @ '' '' @ fname @ '': Unknown field '' @ [CHR 0x27] @ fld @ [CHR 0x27]
     @ '' (not in Go struct)''"

text \<open>The body of the inner loop, for one key of the payload.\<close>

definition check_field ::
  "(string \<rightharpoonup> go_struct_field) \<Rightarrow> string \<Rightarrow> string \<Rightarrow> payload_scan \<Rightarrow> payload_scan" where
  "check_field gofs fname fld s =
     (if fld \<notin> dom gofs then
        (if fld = ''event_type'' then
           s\<lparr>field_mismatches := field_mismatches s @ [(fname, fld, ''type'')],
             scan_results := add_error (event_type_msg fname) (scan_results s)\<rparr>
         else if fld = ''guid'' then
           s\<lparr>unknown_fields := unknown_fields s @ [(fname, fld)],
             scan_results := add_error (ambiguous_guid_msg fname) (scan_results s)\<rparr>
         else
           s\<lparr>unknown_fields := unknown_fields s @ [(fname, fld)],
             scan_results := add_error (unknown_field_msg fname fld) (scan_results s)\<rparr>)
      else s)"

text \<open>The body of the outer loop, for one event: \<^verbatim>\<open>continue\<close> ends it early.\<close>

definition check_payload ::
  "(string \<rightharpoonup> go_struct_field) \<Rightarrow> bruno_event \<Rightarrow> payload_scan \<Rightarrow> payload_scan" where
  "check_payload gofs event s =
     (if \<not> dict_in ''type'' (payload event) then
        s\<lparr>missing_type := missing_type s @ [file_name event],
          scan_results := add_error (missing_type_msg (file_name event)) (scan_results s)\<rparr>
      else fold (check_field gofs (file_name event)) (dict_keys (payload event)) s)"

definition validate_bruno_payloads :: "auditor \<Rightarrow> auditor" where
  "validate_bruno_payloads a =
     (let s = fold (check_payload (go_fields a)) (bruno_events a)
                \<lparr>field_mismatches = [], unknown_fields = [], missing_type = [],
                 scan_results = results a\<rparr>
      in if field_mismatches s = [] \<and> unknown_fields s = [] \<and> missing_type s = []
         then a\<lparr>results := add_pass (scan_results s)\<rparr>
         else a\<lparr>results := scan_results s\<rparr>)"

subsection \<open>validate\_guid\_fields\<close>

definition combat_events :: "string set" where
  "combat_events =
     {''player_kill'', ''bot_killed'', ''team_kill'', ''damage'',
      ''player_damage'', ''bot_damage'', ''team_damage''}"

definition single_player_events :: "string set" where
  "single_player_events =
     {''jump'', ''crouch'', ''prone'', ''stand'', ''sprint'', ''walk'',
      ''spawn'', ''respawn'', ''say'', ''say_team'', ''connect'', ''disconnect'',
      ''weapon_pickup'', ''weapon_switch'', ''weapon_drop'', ''reload'',
      ''item_pickup'', ''item_use'', ''item_drop''}"

definition bare_guid_msg :: "string \<Rightarrow> string" where
  "bare_guid_msg fname =
     error_mark @ '' '' @ fname @ '': Uses ambiguous '' @ [CHR 0x27] @ ''guid'' @ [CHR 0x27] @ '' field''"

definition combat_msg :: "string \<Rightarrow> string \<Rightarrow> string" where
  "combat_msg fname actual_str =
     fname @ '': Combat event should have attacker_guid AND victim_guid, has '' @ actual_str"

definition single_player_msg :: "string \<Rightarrow> string" where
  "single_player_msg fname = fname @ '': Single-player event should have player_guid''"

text \<open>
  The body of the loop, for one event; the state is \<^verbatim>\<open>ambiguous_guid_found\<close> and
  \<^verbatim>\<open>self.results\<close>.
\<close>

definition check_guid :: "bruno_event \<Rightarrow> bool \<times> validation_result \<Rightarrow> bool \<times> validation_result" where
  "check_guid event st =
     (let has_ambiguous_guid = dict_in ''guid'' (payload event);
          has_player_guid = dict_in ''player_guid'' (payload event);
          has_attacker_guid = dict_in ''attacker_guid'' (payload event);
          has_victim_guid = dict_in ''victim_guid'' (payload event)
      in if has_ambiguous_guid then
           (True, add_error (bare_guid_msg (file_name event)) (snd st))
         else if event_type event \<in> combat_events then
           (if \<not> (has_attacker_guid \<and> has_victim_guid) then
              (let actual = (if has_attacker_guid then [''attacker_guid''] else [])
                            @ (if has_victim_guid then [''victim_guid''] else [])
                            @ (if has_player_guid then [''player_guid''] else []);
                   actual_str = (if actual \<noteq> [] then join '', '' actual else ''none'')
               in (fst st, add_warning (combat_msg (file_name event) actual_str) (snd st)))
            else st)
         else if event_type event \<in> single_player_events then
           (if \<not> has_player_guid then
              (fst st, add_warning (single_player_msg (file_name event)) (snd st))
            else st)
         else st)"

definition validate_guid_fields :: "auditor \<Rightarrow> auditor" where
  "validate_guid_fields a =
     (let st = fold check_guid (bruno_events a) (False, results a);
          ambiguous_guid_found = fst st;
          r = snd st
      in if \<not> ambiguous_guid_found \<and> warnings r = 0
         then a\<lparr>results := add_pass r\<rparr>
         else a\<lparr>results := r\<rparr>)"

subsection \<open>What the run reads\<close>

text \<open>
  The standard library is a parameter of the embedding: the five regular expression
  searches, each the call the source makes with its pattern and flags and returning the
  captured groups, \<^verbatim>\<open>str.strip\<close>, and \<^verbatim>\<open>json.loads\<close>, which returns the text
  of its \<^verbatim>\<open>JSONDecodeError\<close> on the left.
\<close>

record pylib =
  search_struct :: "string \<Rightarrow> string option"
  finditer_fields :: "string \<Rightarrow> (string \<times> string \<times> string) list"
  finditer_consts :: "string \<Rightarrow> string list"
  search_meta_name :: "string \<Rightarrow> string option"
  search_body_json :: "string \<Rightarrow> string option"
  str_strip :: "string \<Rightarrow> string"
  json_loads :: "string \<Rightarrow> string + json"

text \<open>
  A \<^verbatim>\<open>.bru\<close> file: \<^verbatim>\<open>file_path.name\<close>, \<^verbatim>\<open>file_path.stem\<close> and what
  \<^verbatim>\<open>read_text()\<close> returns. The embedding covers the runs in which every file that
  exists reads as text.
\<close>

record bru_file =
  path_name :: string
  path_stem :: string
  read_text :: string

text \<open>
  The three places under \<^verbatim>\<open>base_dir\<close>: the path as the f-string prints it, and
  the content, \<open>None\<close> when \<^verbatim>\<open>exists()\<close> is false. \<open>bruno_dir\<close> lists what
  \<^verbatim>\<open>glob("*.bru")\<close> yields, in any order.
\<close>

record file_system =
  events_path :: string
  events_file :: "string option"
  enum_path :: string
  enum_file :: "string option"
  bruno_path :: string
  bruno_dir :: "bru_file list option"

subsection \<open>parse\_go\_struct and parse\_event\_types\_enum\<close>

text \<open>\<^verbatim>\<open>s.split(c)\<close>, never empty: the first part, and the parts after it.\<close>

fun split_on :: "char \<Rightarrow> string \<Rightarrow> string \<times> string list" where
  "split_on c [] = ([], [])"
| "split_on c (x # xs) =
     (let (h, t) = split_on c xs in if x = c then ([], h # t) else (x # h, t))"

definition add_go_field ::
  "string \<times> string \<times> string \<Rightarrow> (string \<rightharpoonup> go_struct_field) \<Rightarrow> (string \<rightharpoonup> go_struct_field)" where
  "add_go_field m gofs =
     (case m of (fname, gtype, json_tag) \<Rightarrow>
        (let (jname, more) = split_on CHR '','' json_tag;
             required = (''omitempty'' \<notin> set (jname # more))
         in gofs(jname \<mapsto>
              \<lparr>field_name = fname, go_type = gtype, json_name = jname, is_required = required\<rparr>)))"

definition parse_go_struct :: "pylib \<Rightarrow> file_system \<Rightarrow> auditor \<Rightarrow> auditor" where
  "parse_go_struct lib fs a =
     (case events_file fs of
        None \<Rightarrow> a\<lparr>results := add_error (''Cannot find '' @ events_path fs) (results a)\<rparr>
      | Some content \<Rightarrow>
          (case search_struct lib content of
             None \<Rightarrow> a\<lparr>results := add_error ''Cannot find RawEvent struct definition'' (results a)\<rparr>
           | Some struct_body \<Rightarrow>
               a\<lparr>go_fields := fold add_go_field (finditer_fields lib struct_body) (go_fields a)\<rparr>))"

definition parse_event_types_enum :: "pylib \<Rightarrow> file_system \<Rightarrow> auditor \<Rightarrow> auditor" where
  "parse_event_types_enum lib fs a =
     (case enum_file fs of
        None \<Rightarrow> a\<lparr>results := add_error (''Cannot find '' @ enum_path fs) (results a)\<rparr>
      | Some content \<Rightarrow>
          a\<lparr>event_types_go := fold insert (finditer_consts lib content) (event_types_go a)\<rparr>)"

subsection \<open>parse\_bru\_file and parse\_bruno\_files\<close>

datatype 'a outcome = Returned 'a | Raised string

definition py_type_name :: "json \<Rightarrow> string" where
  "py_type_name v =
     (case v of JNull \<Rightarrow> ''NoneType'' | JBool _ \<Rightarrow> ''bool'' | JInt _ \<Rightarrow> ''int''
      | JFloat _ \<Rightarrow> ''float'' | JString _ \<Rightarrow> ''str'' | JArray _ \<Rightarrow> ''list''
      | JObject _ \<Rightarrow> ''dict'')"

text \<open>The \<^verbatim>\<open>AttributeError\<close> of \<^verbatim>\<open>payload.get\<close> on a value that is no dict.\<close>

definition no_get_msg :: "json \<Rightarrow> string" where
  "no_get_msg v =
     [CHR 0x27] @ py_type_name v @ [CHR 0x27] @ '' object has no attribute ''
     @ [CHR 0x27] @ ''get'' @ [CHR 0x27]"

text \<open>
  \<^verbatim>\<open>parse_bru_file\<close> returns an event or \<^verbatim>\<open>None\<close>, or raises; either way it
  may have recorded an error. \<^verbatim>\<open>event_type\<close> is declared \<^verbatim>\<open>str\<close> and the
  embedding keeps that type: a payload whose \<^verbatim>\<open>type\<close> key holds a value that is
  not a JSON string is outside it, and the result is \<open>None\<close> there (no behaviour is
  claimed for such a file).
\<close>

definition parse_bru_file ::
  "pylib \<Rightarrow> bru_file \<Rightarrow> validation_result
   \<Rightarrow> (bruno_event option outcome \<times> validation_result) option" where
  "parse_bru_file lib f r =
     (let content = read_text f;
          ename = (case search_meta_name lib content of
                     Some g \<Rightarrow> str_strip lib g
                   | None \<Rightarrow> path_stem f)
      in case search_body_json lib content of
           None \<Rightarrow> Some (Returned None, r)
         | Some g \<Rightarrow>
             (case json_loads lib (str_strip lib g) of
                Inl e \<Rightarrow>
                  Some (Returned None, add_error (path_name f @ '': Invalid JSON - '' @ e) r)
              | Inr (JObject d) \<Rightarrow>
                  (case dict_get d ''type'' of
                     None \<Rightarrow>
                       Some (Returned (Some \<lparr>file_name = path_name f, event_name = ename,
                                             event_type = [], payload = d\<rparr>), r)
                   | Some (JString t) \<Rightarrow>
                       Some (Returned (Some \<lparr>file_name = path_name f, event_name = ename,
                                             event_type = t, payload = d\<rparr>), r)
                   | Some _ \<Rightarrow> None)
              | Inr v \<Rightarrow> Some (Raised (no_get_msg v), r)))"

text \<open>The body of the loop over the files, with its \<^verbatim>\<open>try\<close> and \<^verbatim>\<open>except\<close>.\<close>

definition load_file :: "pylib \<Rightarrow> bru_file \<Rightarrow> auditor \<Rightarrow> auditor option" where
  "load_file lib f a =
     (case parse_bru_file lib f (results a) of
        None \<Rightarrow> None
      | Some (Returned None, r) \<Rightarrow> Some (a\<lparr>results := r\<rparr>)
      | Some (Returned (Some event), r) \<Rightarrow>
          Some (a\<lparr>bruno_events := bruno_events a @ [event],
                  event_types_bruno := insert (event_type event) (event_types_bruno a),
                  results := r\<rparr>)
      | Some (Raised e, r) \<Rightarrow>
          Some (a\<lparr>results := add_error (''Failed to parse '' @ path_name f @ '': '' @ e) r\<rparr>))"

fun load_files :: "pylib \<Rightarrow> bru_file list \<Rightarrow> auditor \<Rightarrow> auditor option" where
  "load_files lib [] a = Some a"
| "load_files lib (f # fs) a =
     (case load_file lib f a of None \<Rightarrow> None | Some a' \<Rightarrow> load_files lib fs a')"

text \<open>
  \<^verbatim>\<open>sorted\<close> orders the paths of one directory by their names, and is stable, as
  \<open>sort_key\<close> is.
\<close>

definition parse_bruno_files :: "pylib \<Rightarrow> file_system \<Rightarrow> auditor \<Rightarrow> auditor option" where
  "parse_bruno_files lib fs a =
     (case bruno_dir fs of
        None \<Rightarrow>
          Some (a\<lparr>results :=
                  add_error (''Cannot find Bruno events directory: '' @ bruno_path fs) (results a)\<rparr>)
      | Some files \<Rightarrow> load_files lib (sort_key path_name files) a)"

subsection \<open>run\_audit and main\<close>

definition run_audit :: "pylib \<Rightarrow> file_system \<Rightarrow> validation_result option" where
  "run_audit lib fs =
     (case parse_bruno_files lib fs
             (parse_event_types_enum lib fs (parse_go_struct lib fs new_auditor)) of
        None \<Rightarrow> None
      | Some a \<Rightarrow>
          Some (results (validate_event_counts (validate_guid_fields (validate_bruno_payloads a)))))"

text \<open>The status that \<^verbatim>\<open>sys.exit\<close> is called with.\<close>

definition exit_code :: "validation_result \<Rightarrow> int" where
  "exit_code r = (if is_success r then 0 else 1)"

definition main :: "pylib \<Rightarrow> file_system \<Rightarrow> int option" where
  "main lib fs = map_option exit_code (run_audit lib fs)"

subsection \<open>What a pass records for one sample\<close>

text \<open>
  The entries a loop body appends for one event, read off a run of the body from the
  empty result.
\<close>

definition payload_errors :: "(string \<rightharpoonup> go_struct_field) \<Rightarrow> bruno_event \<Rightarrow> string list" where
  "payload_errors gofs event =
     errors (scan_results (check_payload gofs event
       \<lparr>field_mismatches = [], unknown_fields = [], missing_type = [],
        scan_results = new_result\<rparr>))"

definition guid_issues :: "bruno_event \<Rightarrow> string list" where
  "guid_issues event = errors (snd (check_guid event (False, new_result)))"

text \<open>The message that the inner loop of the payload pass has for a key it rejects.\<close>

definition field_msg :: "string \<Rightarrow> string \<Rightarrow> string" where
  "field_msg fname fld =
     (if fld = ''event_type'' then event_type_msg fname
      else if fld = ''guid'' then ambiguous_guid_msg fname
      else unknown_field_msg fname fld)"

text \<open>The entries the coverage half of \<^verbatim>\<open>validate_event_counts\<close> appends.\<close>

definition coverage_issues :: "auditor \<Rightarrow> string list" where
  "coverage_issues a = errors (results (report_coverage (a\<lparr>results := new_result\<rparr>)))"

text \<open>
  Two states of the auditor that hold the same schema, corpus and type sets, the first
  with \<open>n\<close> more failures.
\<close>

definition same_corpus :: "nat \<Rightarrow> auditor \<Rightarrow> auditor \<Rightarrow> bool" where
  "same_corpus n a b =
     (go_fields a = go_fields b \<and> bruno_events a = bruno_events b
      \<and> event_types_go a = event_types_go b \<and> event_types_bruno a = event_types_bruno b
      \<and> warnings (results a) = warnings (results b)
      \<and> failed (results a) = failed (results b) + n)"

text \<open>
  The runs the embedding covers: in every file that parses to an object, the \<open>type\<close>
  key is absent or holds a JSON string.
\<close>

definition str_typed :: "pylib \<Rightarrow> bru_file \<Rightarrow> bool" where
  "str_typed lib f =
     (case search_body_json lib (read_text f) of
        None \<Rightarrow> True
      | Some g \<Rightarrow>
          (case json_loads lib (str_strip lib g) of
             Inr (JObject d) \<Rightarrow>
               (case dict_get d ''type'' of
                  None \<Rightarrow> True
                | Some (JString t) \<Rightarrow> True
                | Some _ \<Rightarrow> False)
           | _ \<Rightarrow> True))"

definition covered :: "pylib \<Rightarrow> file_system \<Rightarrow> bool" where
  "covered lib fs =
     (case bruno_dir fs of None \<Rightarrow> True | Some files \<Rightarrow> list_all (str_typed lib) files)"

subsection \<open>Example inputs\<close>

definition ex_result :: validation_result where
  "ex_result = \<lparr>passed = 2, failed = 0, warnings = 0, errors = []\<rparr>"

definition ex_small :: auditor where
  "ex_small =
     \<lparr>go_fields = Map.empty,
      bruno_events = [\<lparr>file_name = ''x.bru'', event_name = ''X'', event_type = ''x'',
                       payload = [(''type'', JString ''x'')]\<rparr>],
      event_types_go = {''x'', ''y'', ''z''},
      event_types_bruno = {''x''},
      results = new_result\<rparr>"

definition ex_type :: "nat \<Rightarrow> string" where
  "ex_type n = replicate n CHR ''a''"

definition ex_full :: auditor where
  "ex_full =
     \<lparr>go_fields = Map.empty,
      bruno_events = map (\<lambda>n. \<lparr>file_name = ex_type n @ ''.bru'', event_name = ex_type n,
                                event_type = ex_type n,
                                payload = [(''type'', JString (ex_type n))]\<rparr>) [0..<105],
      event_types_go = ex_type ` {..<105},
      event_types_bruno = ex_type ` {..<105},
      results = new_result\<rparr>"

definition ex_schema :: "string \<rightharpoonup> go_struct_field" where
  "ex_schema =
     [''type'' \<mapsto> \<lparr>field_name = ''Type'', go_type = ''EventType'', json_name = ''type'',
                     is_required = True\<rparr>,
      ''player_guid'' \<mapsto> \<lparr>field_name = ''PlayerGUID'', go_type = ''string'',
                            json_name = ''player_guid'', is_required = False\<rparr>]"

definition ex_no_type :: bruno_event where
  "ex_no_type =
     \<lparr>file_name = ''bad.bru'', event_name = ''Bad'', event_type = [],
      payload = [(''foo'', JInt 1), (''player_guid'', JString ''p'')]\<rparr>"

definition ex_empty_type :: bruno_event where
  "ex_empty_type =
     \<lparr>file_name = ''empty.bru'', event_name = ''Empty'', event_type = [],
      payload = [(''type'', JString []), (''foo'', JInt 1), (''player_guid'', JString ''p'')]\<rparr>"

definition ex_jump_guid :: bruno_event where
  "ex_jump_guid =
     \<lparr>file_name = ''jump.bru'', event_name = ''Jump'', event_type = ''jump'',
      payload = [(''type'', JString ''jump''), (''guid'', JString ''abc'')]\<rparr>"

definition ex_heartbeat_guid :: bruno_event where
  "ex_heartbeat_guid =
     \<lparr>file_name = ''heartbeat.bru'', event_name = ''Heartbeat'', event_type = ''heartbeat'',
      payload = [(''type'', JString ''heartbeat''), (''guid'', JString ''abc'')]\<rparr>"

definition ex_heartbeat :: bruno_event where
  "ex_heartbeat =
     \<lparr>file_name = ''heartbeat.bru'', event_name = ''Heartbeat'', event_type = ''heartbeat'',
      payload = [(''type'', JString ''heartbeat''), (''player_guid'', JString ''abc'')]\<rparr>"

definition ex_kill :: bruno_event where
  "ex_kill =
     \<lparr>file_name = ''kill.bru'', event_name = ''Kill'', event_type = ''player_kill'',
      payload = [(''type'', JString ''player_kill''), (''player_guid'', JString ''abc'')]\<rparr>"

definition ex_guid_run :: auditor where
  "ex_guid_run =
     \<lparr>go_fields = ex_schema, bruno_events = [ex_jump_guid], event_types_go = {''jump''},
      event_types_bruno = {''jump''}, results = new_result\<rparr>"

definition ex_lib :: pylib where
  "ex_lib =
     \<lparr>search_struct = (\<lambda>s. None),
      finditer_fields = (\<lambda>s. []),
      finditer_consts = (\<lambda>s. []),
      search_meta_name = (\<lambda>s. None),
      search_body_json = (\<lambda>s. if s = ''meta only'' then None else Some s),
      str_strip = (\<lambda>s. s),
      json_loads = (\<lambda>s. if s = ''JUMP''
                          then Inr (JObject [(''type'', JString ''jump''),
                                             (''player_guid'', JString ''abc'')])
                          else Inl ''Expecting value: line 1 column 1 (char 0)'')\<rparr>"

definition ex_bad_file :: bru_file where
  "ex_bad_file = \<lparr>path_name = ''bad.bru'', path_stem = ''bad'', read_text = ''{oops''\<rparr>"

definition ex_no_body_file :: bru_file where
  "ex_no_body_file = \<lparr>path_name = ''meta.bru'', path_stem = ''meta'', read_text = ''meta only''\<rparr>"

definition ex_jump_file :: bru_file where
  "ex_jump_file = \<lparr>path_name = ''jump.bru'', path_stem = ''jump'', read_text = ''JUMP''\<rparr>"

definition ex_fs :: file_system where
  "ex_fs =
     \<lparr>events_path = ''internal/models/events.go'', events_file = None,
      enum_path = ''internal/models/event_types_generated.go'', enum_file = None,
      bruno_path = ''bruno/Ingestion/Events'',
      bruno_dir = Some [ex_no_body_file, ex_jump_file]\<rparr>"

section \<open>Properties\<close>

subsection \<open>Counters and accumulated messages\<close>

lemma add_error_sel [simp]:
  "errors (add_error m r) = errors r @ [m]"
  "failed (add_error m r) = Suc (failed r)"
  "warnings (add_error m r) = warnings r"
  "passed (add_error m r) = passed r"
  by (simp_all add: add_error_def)

lemma add_warning_sel [simp]:
  "errors (add_warning m r) = errors r @ [warning_mark @ ''  '' @ m]"
  "failed (add_warning m r) = failed r"
  "warnings (add_warning m r) = Suc (warnings r)"
  "passed (add_warning m r) = passed r"
  by (simp_all add: add_warning_def)

lemma add_pass_sel [simp]:
  "errors (add_pass r) = errors r"
  "failed (add_pass r) = failed r"
  "warnings (add_pass r) = warnings r"
  "passed (add_pass r) = Suc (passed r)"
  by (simp_all add: add_pass_def)

lemma fold_add_error:
  "fold (\<lambda>x. add_error (g x)) xs r
     = r\<lparr>errors := errors r @ map g xs, failed := failed r + length xs\<rparr>"
  by (induction xs arbitrary: r) (simp_all add: add_error_def)

lemma check_field_results:
  "scan_results (check_field gofs fname k s)
     = (if k \<in> dom gofs then scan_results s
        else add_error (field_msg fname k) (scan_results s))"
  by (simp add: check_field_def field_msg_def)

lemma check_field_missing_type [simp]:
  "missing_type (check_field gofs fname k s) = missing_type s"
  by (simp add: check_field_def)

lemma fold_check_field_missing_type [simp]:
  "missing_type (fold (check_field gofs fname) ks s) = missing_type s"
  by (induction ks arbitrary: s) simp_all

lemma fold_check_field_results:
  "scan_results (fold (check_field gofs fname) ks s)
     = (scan_results s)
         \<lparr>errors := errors (scan_results s)
                      @ map (field_msg fname) (filter (\<lambda>k. k \<notin> dom gofs) ks),
          failed := failed (scan_results s) + length (filter (\<lambda>k. k \<notin> dom gofs) ks)\<rparr>"
proof (induction ks arbitrary: s)
  case Nil
  show ?case by simp
next
  case (Cons k ks)
  show ?case
    by (simp add: Cons.IH check_field_results add_error_def)
qed

lemma payload_errors_eq:
  "payload_errors gofs e
     = (if dict_in ''type'' (payload e)
        then map (field_msg (file_name e)) (filter (\<lambda>k. k \<notin> dom gofs) (dict_keys (payload e)))
        else [missing_type_msg (file_name e)])"
  by (simp add: payload_errors_def check_payload_def fold_check_field_results new_result_def)

lemma check_payload_results:
  "scan_results (check_payload gofs e s)
     = (scan_results s)
         \<lparr>errors := errors (scan_results s) @ payload_errors gofs e,
          failed := failed (scan_results s) + length (payload_errors gofs e)\<rparr>"
  by (simp add: payload_errors_eq) (simp add: check_payload_def fold_check_field_results add_error_def)

lemma fold_check_payload_results:
  "scan_results (fold (check_payload gofs) es s)
     = (scan_results s)
         \<lparr>errors := errors (scan_results s) @ concat (map (payload_errors gofs) es),
          failed := failed (scan_results s) + length (concat (map (payload_errors gofs) es))\<rparr>"
proof (induction es arbitrary: s)
  case Nil
  show ?case by simp
next
  case (Cons e es)
  show ?case by (simp add: Cons.IH check_payload_results)
qed

lemma validate_bruno_payloads_errors:
  "errors (results (validate_bruno_payloads a))
     = errors (results a) @ concat (map (payload_errors (go_fields a)) (bruno_events a))"
  "failed (results (validate_bruno_payloads a))
     = failed (results a) + length (concat (map (payload_errors (go_fields a)) (bruno_events a)))"
  "warnings (results (validate_bruno_payloads a)) = warnings (results a)"
  by (simp_all add: validate_bruno_payloads_def Let_def fold_check_payload_results)

subsection \<open>Success and the exit status\<close>

lemma load_file_returns:
  assumes "str_typed lib f"
  shows "\<exists>b. load_file lib f a = Some b"
proof (cases "search_body_json lib (read_text f)")
  case None
  then show ?thesis
    by (simp add: load_file_def parse_bru_file_def Let_def)
next
  case body: (Some g)
  show ?thesis
  proof (cases "json_loads lib (str_strip lib g)")
    case (Inl e)
    with body show ?thesis
      by (simp add: load_file_def parse_bru_file_def Let_def)
  next
    case loaded: (Inr v)
    show ?thesis
    proof (cases v)
      case (JObject d)
      show ?thesis
      proof (cases "dict_get d ''type''")
        case None
        with body loaded JObject show ?thesis
          by (simp add: load_file_def parse_bru_file_def Let_def)
      next
        case (Some w)
        with assms body loaded JObject obtain t where "w = JString t"
          by (cases w) (simp_all add: str_typed_def)
        with body loaded JObject Some show ?thesis
          by (simp add: load_file_def parse_bru_file_def Let_def)
      qed
    qed (use body loaded in \<open>simp_all add: load_file_def parse_bru_file_def Let_def\<close>)
  qed
qed

lemma load_files_returns:
  "list_all (str_typed lib) fs \<Longrightarrow> \<exists>b. load_files lib fs a = Some b"
proof (induction fs arbitrary: a)
  case Nil
  show ?case by simp
next
  case (Cons f fs)
  then obtain b where "load_file lib f a = Some b"
    using load_file_returns [of lib f a] by auto
  with Cons show ?case by simp
qed

lemma run_audit_returns:
  assumes "covered lib fs"
  shows "\<exists>r. run_audit lib fs = Some r"
proof (cases "bruno_dir fs")
  case None
  then show ?thesis
    by (simp add: run_audit_def parse_bruno_files_def)
next
  case (Some files)
  with assms have "list_all (str_typed lib) (sort_key path_name files)"
    by (simp add: covered_def list_all_iff)
  from load_files_returns [OF this] obtain b where
    "load_files lib (sort_key path_name files)
       (parse_event_types_enum lib fs (parse_go_struct lib fs new_auditor)) = Some b"
    by blast
  with Some show ?thesis
    by (simp add: run_audit_def parse_bruno_files_def)
qed


text \<open>
  C5. The success flag of a result is \<open>failed = 0\<close>; every run that the embedding
  covers returns, and the process exits with 0 when \<open>failed = 0\<close> and with 1
  otherwise; recording a warning changes neither the failed counter, nor the success flag,
  nor the exit status.
\<close>

theorem warnings_never_affect_success:
  "is_success r = (failed r = 0)
   \<and> exit_code r = (if failed r = 0 then 0 else 1)
   \<and> main lib fs = map_option (\<lambda>r. if failed r = 0 then 0 else 1) (run_audit lib fs)
   \<and> (covered lib fs
      \<longrightarrow> (\<exists>r. run_audit lib fs = Some r \<and> main lib fs = Some (if failed r = 0 then 0 else 1)))
   \<and> failed (add_warning msg r) = failed r
   \<and> is_success (add_warning msg r) = is_success r
   \<and> exit_code (add_warning msg r) = exit_code r"
proof -
  have m: "main lib fs = map_option (\<lambda>r. if failed r = 0 then 0 else 1) (run_audit lib fs)"
    by (simp add: main_def exit_code_def [abs_def] is_success_def)
  have "\<exists>r. run_audit lib fs = Some r \<and> main lib fs = Some (if failed r = 0 then 0 else 1)"
    if "covered lib fs"
    using run_audit_returns [OF that] by (auto simp: m)
  then show ?thesis
    using m by (simp add: exit_code_def is_success_def add_warning_def)
qed

theorem warnings_never_affect_success_witness:
  "covered ex_lib ex_fs
   \<and> (\<exists>r. run_audit ex_lib ex_fs = Some r
          \<and> main ex_lib ex_fs = Some (if failed r = 0 then 0 else 1))
   \<and> is_success (add_warning ''w'' ex_result)
   \<and> exit_code (add_warning ''w'' ex_result) = 0
   \<and> failed (add_warning ''w'' ex_result) = 0
   \<and> exit_code (add_error ''e'' ex_result) = 1"
proof -
  have c: "covered ex_lib ex_fs"
    by (simp add: covered_def ex_fs_def str_typed_def ex_lib_def ex_no_body_file_def
        ex_jump_file_def dict_get_def)
  note t = warnings_never_affect_success [where lib = ex_lib and fs = ex_fs]
  have "\<exists>r. run_audit ex_lib ex_fs = Some r
          \<and> main ex_lib ex_fs = Some (if failed r = 0 then 0 else 1)"
    using t [THEN conjunct2, THEN conjunct2, THEN conjunct2, THEN conjunct1, THEN mp, OF c] .
  moreover have "is_success (add_warning ''w'' ex_result)
      \<and> exit_code (add_warning ''w'' ex_result) = 0
      \<and> failed (add_warning ''w'' ex_result) = 0"
    using warnings_never_affect_success [where r = ex_result and msg = "''w''"]
    by (simp add: ex_result_def)
  moreover have "exit_code (add_error ''e'' ex_result) = 1"
    using warnings_never_affect_success [where r = "add_error ''e'' ex_result"]
    by (simp add: ex_result_def)
  ultimately show ?thesis
    using c by blast
qed

subsection \<open>Count reconciliation\<close>

lemma sublist_str_nat_count:
  "sublist (str_nat g) (count_mismatch_msg g b f e)"
  "sublist (str_nat b) (count_mismatch_msg g b f e)"
  "sublist (str_nat f) (count_mismatch_msg g b f e)"
  unfolding count_mismatch_msg_def sublist_def
  by (metis append.assoc)+

text \<open>
  C3. When the number of canonical event types, the number of distinct event types of the
  corpus and the number of loaded samples are all 105, the count reconciliation records
  no issue; otherwise it records exactly one error, whose message carries the three
  numbers.
\<close>

theorem reconcile_counts_issues:
  "(card (event_types_go a) = 105 \<and> card (event_types_bruno a) = 105
      \<and> length (bruno_events a) = 105
    \<longrightarrow> errors (results (reconcile_counts a)) = errors (results a)
        \<and> failed (results (reconcile_counts a)) = failed (results a)
        \<and> warnings (results (reconcile_counts a)) = warnings (results a))
   \<and> (\<not> (card (event_types_go a) = 105 \<and> card (event_types_bruno a) = 105
          \<and> length (bruno_events a) = 105)
    \<longrightarrow> errors (results (reconcile_counts a))
          = errors (results a)
            @ [count_mismatch_msg (card (event_types_go a)) (card (event_types_bruno a))
                 (length (bruno_events a)) 105]
        \<and> failed (results (reconcile_counts a)) = failed (results a) + 1
        \<and> warnings (results (reconcile_counts a)) = warnings (results a))
   \<and> sublist (str_nat (card (event_types_go a)))
        (count_mismatch_msg (card (event_types_go a)) (card (event_types_bruno a))
           (length (bruno_events a)) 105)
   \<and> sublist (str_nat (card (event_types_bruno a)))
        (count_mismatch_msg (card (event_types_go a)) (card (event_types_bruno a))
           (length (bruno_events a)) 105)
   \<and> sublist (str_nat (length (bruno_events a)))
        (count_mismatch_msg (card (event_types_go a)) (card (event_types_bruno a))
           (length (bruno_events a)) 105)"
proof -
  have "card (event_types_go a) = 105 \<and> card (event_types_bruno a) = 105
          \<and> length (bruno_events a) = 105
        \<Longrightarrow> results (reconcile_counts a) = add_pass (results a)"
    by (simp add: reconcile_counts_def expected_count_def)
  moreover have "\<not> (card (event_types_go a) = 105 \<and> card (event_types_bruno a) = 105
          \<and> length (bruno_events a) = 105)
        \<Longrightarrow> results (reconcile_counts a)
            = add_error (count_mismatch_msg (card (event_types_go a))
                (card (event_types_bruno a)) (length (bruno_events a)) 105) (results a)"
    by (simp add: reconcile_counts_def expected_count_def Let_def)
  ultimately show ?thesis
    by (simp add: sublist_str_nat_count add_error_def add_pass_def)
qed

lemma ex_type_inj: "inj ex_type"
  by (rule injI) (metis ex_type_def length_replicate)

lemma card_ex_types: "card (ex_type ` {..<105}) = 105"
  by (simp add: card_image inj_on_subset [OF ex_type_inj])

theorem reconcile_counts_issues_witness:
  "errors (results (reconcile_counts ex_full)) = []
   \<and> failed (results (reconcile_counts ex_full)) = 0
   \<and> errors (results (reconcile_counts ex_small))
       = [''Event count mismatch: Go=3, Bruno Types=1, Bruno Files=1, Expected=105'']
   \<and> failed (results (reconcile_counts ex_small)) = 1"
proof -
  have full: "card (event_types_go ex_full) = 105" "card (event_types_bruno ex_full) = 105"
    "length (bruno_events ex_full) = 105"
    by (simp_all add: ex_full_def card_ex_types)
  have small: "card (event_types_go ex_small) = 3" "card (event_types_bruno ex_small) = 1"
    "length (bruno_events ex_small) = 1"
    by (simp_all add: ex_small_def)
  have r: "results ex_full = new_result" "results ex_small = new_result"
    by (simp_all add: ex_full_def ex_small_def)
  have msg: "count_mismatch_msg 3 (Suc 0) (Suc 0) 105
       = ''Event count mismatch: Go=3, Bruno Types=1, Bruno Files=1, Expected=105''"
    by (simp add: count_mismatch_msg_def str_nat.simps)
  show ?thesis
    using reconcile_counts_issues [of ex_full] reconcile_counts_issues [of ex_small]
    by (simp add: full small r msg new_result_def)
qed

subsection \<open>Field membership\<close>

lemma field_msg_inj: "field_msg f k = field_msg f k' \<Longrightarrow> k = k'"
  by (auto simp: field_msg_def event_type_msg_def ambiguous_guid_msg_def unknown_field_msg_def
      split: if_splits)

lemma field_msg_not_missing: "field_msg f k \<noteq> missing_type_msg f"
  by (auto simp: field_msg_def event_type_msg_def ambiguous_guid_msg_def unknown_field_msg_def
      missing_type_msg_def split: if_splits)

lemma sublist_field_msg:
  "sublist f (field_msg f k)" "sublist k (field_msg f k)"
proof -
  show "sublist f (field_msg f k)"
    unfolding field_msg_def event_type_msg_def ambiguous_guid_msg_def unknown_field_msg_def
      sublist_def
    by (auto intro: exI [of _ "error_mark @ '' ''"])
  show "sublist k (field_msg f k)"
  proof -
    have "sublist ''event_type'' (event_type_msg f)"
      unfolding event_type_msg_def sublist_def
      by (rule exI [of _ "error_mark @ '' '' @ f @ '': Uses '' @ [CHR 0x27]"]) simp
    moreover have "sublist ''guid'' (ambiguous_guid_msg f)"
      unfolding ambiguous_guid_msg_def sublist_def
      by (rule exI [of _ "error_mark @ '' '' @ f @ '': Ambiguous '' @ [CHR 0x27]"]) simp
    moreover have "sublist k (unknown_field_msg f k)"
      unfolding unknown_field_msg_def sublist_def
      by (rule exI [of _ "error_mark @ '' '' @ f @ '': Unknown field '' @ [CHR 0x27]"]) simp
    ultimately show ?thesis by (simp add: field_msg_def)
  qed
qed

lemma count_list_map_filter:
  assumes "distinct ks" and "\<And>k k'. g k = g k' \<Longrightarrow> k = k'"
  shows "count_list (map g (filter P ks)) (g k) = (if k \<in> set ks \<and> P k then 1 else 0)"
  using assms(1)
proof (induction ks)
  case Nil
  show ?case by simp
next
  case (Cons x ks)
  then show ?case using assms(2) by auto
qed

text \<open>
  C1, as amended. For a loaded sample whose payload holds the \<open>type\<close> key, and for
  every key of the payload (the keys of a dict are distinct), the payload pass records
  exactly one error naming the file and the key if and only if the key is absent from the
  schema field mapping, and records nothing else for the sample. The \<open>type\<close> key has
  no exemption of its own: it is accepted when the schema mapping holds it, as every
  other key is.
\<close>

theorem field_membership:
  assumes "dict_in ''type'' (payload e)"
    and "distinct (dict_keys (payload e))"
    and "k \<in> set (dict_keys (payload e))"
  shows "count_list (payload_errors gofs e) (field_msg (file_name e) k)
           = (if k \<notin> dom gofs then 1 else 0)
         \<and> set (payload_errors gofs e)
           = field_msg (file_name e) ` {k \<in> set (dict_keys (payload e)). k \<notin> dom gofs}
         \<and> sublist (file_name e) (field_msg (file_name e) k)
         \<and> sublist k (field_msg (file_name e) k)
         \<and> errors (results (validate_bruno_payloads a))
           = errors (results a) @ concat (map (payload_errors (go_fields a)) (bruno_events a))"
proof -
  have "count_list (payload_errors gofs e) (field_msg (file_name e) k)
          = (if k \<notin> dom gofs then 1 else 0)"
    using assms(1,3) count_list_map_filter [where g = "field_msg (file_name e)"
        and P = "\<lambda>k. k \<notin> dom gofs" and k = k, OF assms(2) field_msg_inj]
    by (simp add: payload_errors_eq)
  moreover have "set (payload_errors gofs e)
          = field_msg (file_name e) ` {k \<in> set (dict_keys (payload e)). k \<notin> dom gofs}"
    using assms(1) by (simp add: payload_errors_eq)
  ultimately show ?thesis
    by (simp add: sublist_field_msg validate_bruno_payloads_errors)
qed


theorem field_membership_witness:
  "count_list (payload_errors ex_schema ex_empty_type) (field_msg ''empty.bru'' ''foo'') = 1
   \<and> count_list (payload_errors ex_schema ex_empty_type) (field_msg ''empty.bru'' ''type'') = 0
   \<and> payload_errors ex_schema ex_empty_type = [unknown_field_msg ''empty.bru'' ''foo'']"
proof -
  have a: "dict_in ''type'' (payload ex_empty_type)"
    "distinct (dict_keys (payload ex_empty_type))"
    "''foo'' \<in> set (dict_keys (payload ex_empty_type))"
    "''type'' \<in> set (dict_keys (payload ex_empty_type))"
    by (simp_all add: ex_empty_type_def dict_in_def dict_keys_def)
  have d: "''foo'' \<notin> dom ex_schema" "''type'' \<in> dom ex_schema"
    by (simp_all add: ex_schema_def)
  have e: "payload_errors ex_schema ex_empty_type = [unknown_field_msg ''empty.bru'' ''foo'']"
    by (simp add: payload_errors_eq ex_empty_type_def dict_in_def dict_keys_def ex_schema_def
        field_msg_def)
  show ?thesis
    using field_membership [OF a(1) a(2) a(3), of ex_schema]
      field_membership [OF a(1) a(2) a(4), of ex_schema] d e
    by (simp add: ex_empty_type_def)
qed

text \<open>
  The claim as first stated exempts the \<open>type\<close> key whatever the schema holds. With
  an empty schema mapping, which is what a missing struct definition leaves, the key is
  flagged as unknown.
\<close>

theorem type_key_flagged:
  "dict_in ''type'' (payload (hd (bruno_events ex_small)))
   \<and> dict_keys (payload (hd (bruno_events ex_small))) = [''type'']
   \<and> go_fields ex_small = Map.empty
   \<and> errors (results (validate_bruno_payloads ex_small))
     = [error_mark @ '' x.bru: Unknown field '' @ [CHR 0x27] @ ''type'' @ [CHR 0x27]
        @ '' (not in Go struct)'']
   \<and> failed (results (validate_bruno_payloads ex_small)) = 1"
  by (simp add: validate_bruno_payloads_errors payload_errors_eq ex_small_def dict_in_def
      dict_keys_def field_msg_def unknown_field_msg_def new_result_def)

text \<open>
  C7. A loaded sample whose payload lacks the \<open>type\<close> key gets exactly one error in
  the payload pass and none of its keys is checked against the schema; a sample whose
  \<open>type\<close> key is present with the empty string gets no missing-type error, and each
  of its keys is checked.
\<close>

theorem missing_type_short_circuits:
  "(\<not> dict_in ''type'' (payload e)
      \<longrightarrow> check_payload gofs e s
            = s\<lparr>missing_type := missing_type s @ [file_name e],
                scan_results := add_error (missing_type_msg (file_name e)) (scan_results s)\<rparr>
        \<and> payload_errors gofs e = [missing_type_msg (file_name e)])
   \<and> (dict_get (payload e) ''type'' = Some (JString [])
      \<longrightarrow> check_payload gofs e s
            = fold (check_field gofs (file_name e)) (dict_keys (payload e)) s
        \<and> missing_type (check_payload gofs e s) = missing_type s
        \<and> missing_type_msg (file_name e) \<notin> set (payload_errors gofs e)
        \<and> payload_errors gofs e
            = map (field_msg (file_name e))
                (filter (\<lambda>k. k \<notin> dom gofs) (dict_keys (payload e))))"
proof -
  have "dict_in ''type'' (payload e)" if "dict_get (payload e) ''type'' = Some (JString [])"
    using that map_of_SomeD [of "payload e" "''type''" "JString []"]
    by (force simp: dict_get_def dict_in_def dict_keys_def)
  moreover have "missing_type_msg (file_name e)
      \<notin> set (map (field_msg (file_name e)) (filter (\<lambda>k. k \<notin> dom gofs) (dict_keys (payload e))))"
    by (metis (no_types, lifting) field_msg_not_missing imageE set_map)
  ultimately show ?thesis
    by (auto simp: check_payload_def payload_errors_eq)
qed

theorem missing_type_short_circuits_witness:
  "payload_errors ex_schema ex_no_type = [missing_type_msg ''bad.bru'']
   \<and> payload_errors ex_schema ex_empty_type = [unknown_field_msg ''empty.bru'' ''foo'']
   \<and> missing_type_msg ''empty.bru'' \<notin> set (payload_errors ex_schema ex_empty_type)"
proof -
  have a: "\<not> dict_in ''type'' (payload ex_no_type)"
    by (simp add: ex_no_type_def dict_in_def dict_keys_def)
  have b: "dict_get (payload ex_empty_type) ''type'' = Some (JString [])"
    by (simp add: ex_empty_type_def dict_get_def)
  have c: "map (field_msg ''empty.bru'')
             (filter (\<lambda>k. k \<notin> dom ex_schema) (dict_keys (payload ex_empty_type)))
           = [unknown_field_msg ''empty.bru'' ''foo'']"
    by (simp add: ex_empty_type_def dict_keys_def ex_schema_def field_msg_def)
  have n: "file_name ex_no_type = ''bad.bru''" "file_name ex_empty_type = ''empty.bru''"
    by (simp_all add: ex_no_type_def ex_empty_type_def)
  note t1 = missing_type_short_circuits [where e = ex_no_type and gofs = ex_schema,
      THEN conjunct1, THEN mp, OF a, THEN conjunct2]
  note t2 = missing_type_short_circuits [where e = ex_empty_type and gofs = ex_schema,
      THEN conjunct2, THEN mp, OF b, THEN conjunct2, THEN conjunct2]
  show ?thesis
    using t1 t2 unfolding n c by blast
qed

subsection \<open>GUID disambiguation\<close>

lemma check_guid_bare:
  "dict_in ''guid'' (payload e)
   \<Longrightarrow> check_guid e st = (True, add_error (bare_guid_msg (file_name e)) (snd st))"
  by (simp add: check_guid_def)

lemma check_guid_no_bare:
  "\<not> dict_in ''guid'' (payload e)
   \<Longrightarrow> fst (check_guid e st) = fst st \<and> failed (snd (check_guid e st)) = failed (snd st)"
  by (simp add: check_guid_def Let_def)

lemma check_guid_results:
  "errors (snd (check_guid e st)) = errors (snd st) @ guid_issues e"
  "failed (snd (check_guid e st))
     = failed (snd st) + (if dict_in ''guid'' (payload e) then 1 else 0)"
  "length (guid_issues e) \<le> 1"
  by (simp_all add: guid_issues_def check_guid_def Let_def new_result_def)

lemma fold_check_guid_results:
  "errors (snd (fold check_guid es st)) = errors (snd st) @ concat (map guid_issues es)"
  "failed (snd (fold check_guid es st))
     = failed (snd st) + length (filter (\<lambda>e. dict_in ''guid'' (payload e)) es)"
  by (induction es arbitrary: st) (simp_all add: check_guid_results)

lemma validate_guid_fields_results:
  "errors (results (validate_guid_fields a))
     = errors (results a) @ concat (map guid_issues (bruno_events a))"
  "failed (results (validate_guid_fields a))
     = failed (results a) + length (filter (\<lambda>e. dict_in ''guid'' (payload e)) (bruno_events a))"
  by (simp_all add: validate_guid_fields_def Let_def fold_check_guid_results)

text \<open>
  C2, as amended. For every loaded sample whose payload holds the bare \<open>guid\<close> key,
  the GUID pass records exactly one error for the sample, whatever its event type and
  whatever the schema field mapping holds: over a corpus the pass adds one failure per
  such sample. The payload pass records an error of its own for the same key when the
  sample has a \<open>type\<close> key and the schema mapping lacks \<open>guid\<close>, so over the
  whole run such a sample has two errors about the key.
\<close>

theorem bare_guid_error:
  "(dict_in ''guid'' (payload e)
      \<longrightarrow> guid_issues e = [bare_guid_msg (file_name e)]
        \<and> failed (snd (check_guid e st)) = failed (snd st) + 1)
   \<and> failed (results (validate_guid_fields a))
       = failed (results a)
         + length (filter (\<lambda>e. dict_in ''guid'' (payload e)) (bruno_events a))
   \<and> results (validate_guid_fields (a\<lparr>go_fields := gofs\<rparr>)) = results (validate_guid_fields a)
   \<and> (dict_in ''guid'' (payload e) \<and> dict_in ''type'' (payload e)
        \<and> distinct (dict_keys (payload e)) \<and> ''guid'' \<notin> dom gofs
      \<longrightarrow> count_list (payload_errors gofs e) (ambiguous_guid_msg (file_name e)) = 1)"
proof -
  have "guid_issues e = [bare_guid_msg (file_name e)]" if "dict_in ''guid'' (payload e)"
    using that by (simp add: guid_issues_def check_guid_bare new_result_def)
  moreover have "count_list (payload_errors gofs e) (ambiguous_guid_msg (file_name e)) = 1"
    if "dict_in ''guid'' (payload e)" "dict_in ''type'' (payload e)"
      "distinct (dict_keys (payload e))" "''guid'' \<notin> dom gofs"
  proof -
    have "count_list (map (field_msg (file_name e))
             (filter (\<lambda>k. k \<notin> dom gofs) (dict_keys (payload e))))
            (field_msg (file_name e) ''guid'') = 1"
      using that count_list_map_filter [where g = "field_msg (file_name e)"
          and P = "\<lambda>k. k \<notin> dom gofs" and k = "''guid''", OF that(3) field_msg_inj]
      by (simp add: dict_in_def)
    then show ?thesis
      using that(2) by (simp add: payload_errors_eq field_msg_def)
  qed
  moreover have "results (validate_guid_fields (a\<lparr>go_fields := gofs\<rparr>))
      = results (validate_guid_fields a)"
    by (simp add: validate_guid_fields_def Let_def)
  ultimately show ?thesis
    by (simp add: validate_guid_fields_results check_guid_results)
qed

theorem bare_guid_error_witness:
  "guid_issues ex_jump_guid = [bare_guid_msg ''jump.bru'']
   \<and> failed (results (validate_guid_fields ex_guid_run)) = 1
   \<and> count_list (payload_errors ex_schema ex_jump_guid) (ambiguous_guid_msg ''jump.bru'') = 1"
proof -
  have a: "dict_in ''guid'' (payload ex_jump_guid)"
    and b: "dict_in ''guid'' (payload ex_jump_guid) \<and> dict_in ''type'' (payload ex_jump_guid)
        \<and> distinct (dict_keys (payload ex_jump_guid)) \<and> ''guid'' \<notin> dom ex_schema"
    by (simp_all add: ex_jump_guid_def dict_in_def dict_keys_def ex_schema_def)
  have n: "file_name ex_jump_guid = ''jump.bru''"
    by (simp add: ex_jump_guid_def)
  have c: "failed (results ex_guid_run)
         + length (filter (\<lambda>e. dict_in ''guid'' (payload e)) (bruno_events ex_guid_run)) = 1"
    by (simp add: ex_guid_run_def a new_result_def)
  note t = bare_guid_error [where e = ex_jump_guid and a = ex_guid_run and gofs = ex_schema]
  show ?thesis
    using t [THEN conjunct1, THEN mp, OF a, THEN conjunct1]
      t [THEN conjunct2, THEN conjunct1]
      t [THEN conjunct2, THEN conjunct2, THEN conjunct2, THEN mp, OF b]
    unfolding n c by blast
qed

text \<open>
  The claim as first stated counts one error over the entire run. The payload pass and
  the GUID pass each record one for the sample below.
\<close>

theorem bare_guid_recorded_twice:
  "dict_in ''guid'' (payload ex_jump_guid)
   \<and> bruno_events ex_guid_run = [ex_jump_guid]
   \<and> errors (results (validate_guid_fields (validate_bruno_payloads ex_guid_run)))
     = [ambiguous_guid_msg ''jump.bru'', bare_guid_msg ''jump.bru'']
   \<and> failed (results (validate_guid_fields (validate_bruno_payloads ex_guid_run))) = 2"
proof -
  have a: "dict_in ''guid'' (payload ex_jump_guid)"
    by (simp add: ex_jump_guid_def dict_in_def dict_keys_def)
  have p: "payload_errors ex_schema ex_jump_guid = [ambiguous_guid_msg ''jump.bru'']"
    by (simp add: payload_errors_eq ex_jump_guid_def dict_in_def dict_keys_def ex_schema_def
        field_msg_def)
  have g: "guid_issues ex_jump_guid = [bare_guid_msg ''jump.bru'']"
    by (simp add: guid_issues_def check_guid_bare [OF a] new_result_def) (simp add: ex_jump_guid_def)
  have s: "bruno_events (validate_bruno_payloads ex_guid_run) = [ex_jump_guid]"
    by (simp add: validate_bruno_payloads_def Let_def ex_guid_run_def)
  show ?thesis
    by (simp add: validate_guid_fields_results validate_bruno_payloads_errors s a g p)
      (simp add: ex_guid_run_def p new_result_def)
qed

text \<open>
  C10. Within the GUID pass the bare-\<open>guid\<close> error and the warnings exclude each
  other: a sample holding the \<open>guid\<close> key gets the error and no warning, since the
  loop body ends there; a sample without the key gets no error; so the pass records at
  most one entry per sample, never an error together with a warning.
\<close>

theorem bare_guid_excludes_warning:
  "(dict_in ''guid'' (payload e)
      \<longrightarrow> check_guid e st = (True, add_error (bare_guid_msg (file_name e)) (snd st))
        \<and> warnings (snd (check_guid e st)) = warnings (snd st))
   \<and> (\<not> dict_in ''guid'' (payload e)
      \<longrightarrow> failed (snd (check_guid e st)) = failed (snd st)
        \<and> fst (check_guid e st) = fst st)
   \<and> \<not> (failed (snd st) < failed (snd (check_guid e st))
         \<and> warnings (snd st) < warnings (snd (check_guid e st)))
   \<and> length (guid_issues e) \<le> 1"
proof -
  have "dict_in ''guid'' (payload e)
      \<Longrightarrow> check_guid e st = (True, add_error (bare_guid_msg (file_name e)) (snd st))"
    by (rule check_guid_bare)
  moreover have "\<not> dict_in ''guid'' (payload e)
      \<Longrightarrow> failed (snd (check_guid e st)) = failed (snd st) \<and> fst (check_guid e st) = fst st"
    by (simp add: check_guid_no_bare)
  moreover have "length (guid_issues e) \<le> 1"
    by (rule check_guid_results(3))
  ultimately show ?thesis
    by (cases "dict_in ''guid'' (payload e)") simp_all
qed

theorem bare_guid_excludes_warning_witness:
  "warnings (snd (check_guid ex_jump_guid (False, new_result))) = 0
   \<and> failed (snd (check_guid ex_jump_guid (False, new_result))) = 1
   \<and> failed (snd (check_guid ex_kill (False, new_result))) = 0
   \<and> warnings (snd (check_guid ex_kill (False, new_result))) = 1"
proof -
  have a: "dict_in ''guid'' (payload ex_jump_guid)"
    by (simp add: ex_jump_guid_def dict_in_def dict_keys_def)
  have b: "\<not> dict_in ''guid'' (payload ex_kill)"
    by (simp add: ex_kill_def dict_in_def dict_keys_def)
  have w: "warnings (snd (check_guid ex_kill (False, new_result))) = 1"
    by (simp add: check_guid_def Let_def ex_kill_def dict_in_def dict_keys_def
        combat_events_def new_result_def)
  note t1 = bare_guid_excludes_warning [where e = ex_jump_guid and st = "(False, new_result)",
      THEN conjunct1, THEN mp, OF a]
  note t2 = bare_guid_excludes_warning [where e = ex_kill and st = "(False, new_result)",
      THEN conjunct2, THEN conjunct1, THEN mp, OF b]
  show ?thesis
    using t1 t2 w by (simp add: new_result_def)
qed

text \<open>
  C8, as amended. For every loaded sample whose event type is in neither the combat set
  nor the single-player set, and whose payload does not hold the bare \<open>guid\<close> key,
  the GUID pass records no issue of any severity.
\<close>

theorem exempt_event_types:
  assumes "event_type e \<notin> combat_events" and "event_type e \<notin> single_player_events"
    and "\<not> dict_in ''guid'' (payload e)"
  shows "check_guid e st = st \<and> guid_issues e = []
         \<and> errors (results (validate_guid_fields a))
           = errors (results a) @ concat (map guid_issues (bruno_events a))"
proof -
  have "check_guid e s = s" for s
    using assms by (simp add: check_guid_def)
  then show ?thesis
    by (simp add: validate_guid_fields_results guid_issues_def new_result_def)
qed

theorem exempt_event_types_witness:
  "check_guid ex_heartbeat (False, new_result) = (False, new_result)
   \<and> guid_issues ex_heartbeat = []"
proof -
  have a: "event_type ex_heartbeat \<notin> combat_events"
    "event_type ex_heartbeat \<notin> single_player_events"
    "\<not> dict_in ''guid'' (payload ex_heartbeat)"
    by (simp_all add: ex_heartbeat_def combat_events_def single_player_events_def
        dict_in_def dict_keys_def)
  show ?thesis
    using exempt_event_types [OF a, of "(False, new_result)"] by simp
qed

text \<open>
  The claim as first stated has no condition on the \<open>guid\<close> key. The bare-key check
  comes before the event type is looked at, so a sample of an exempt type that holds the
  key gets the error.
\<close>

theorem exempt_type_with_bare_guid:
  "event_type ex_heartbeat_guid \<notin> combat_events
   \<and> event_type ex_heartbeat_guid \<notin> single_player_events
   \<and> guid_issues ex_heartbeat_guid = [bare_guid_msg ''heartbeat.bru'']
   \<and> failed (snd (check_guid ex_heartbeat_guid (False, new_result))) = 1"
  by (simp add: guid_issues_def check_guid_def ex_heartbeat_guid_def combat_events_def
      single_player_events_def dict_in_def dict_keys_def new_result_def)

subsection \<open>Type coverage\<close>

lemma missing_msg_inj: "missing_msg t = missing_msg u \<Longrightarrow> t = u"
  by (simp add: missing_msg_def)

lemma extra_msg_inj: "extra_msg t = extra_msg u \<Longrightarrow> t = u"
  by (simp add: extra_msg_def)

lemma missing_msg_not_extra: "missing_msg t \<noteq> extra_msg u"
proof
  assume "missing_msg t = extra_msg u"
  then have "last (missing_msg t) = last (extra_msg u)" by simp
  then show False by (simp add: missing_msg_def extra_msg_def)
qed

lemma count_list_map_inj:
  assumes "distinct ks" and "\<And>k k'. g k = g k' \<Longrightarrow> k = k'"
  shows "count_list (map g ks) (g k) = (if k \<in> set ks then 1 else 0)"
  using assms(1)
proof (induction ks)
  case Nil
  show ?case by simp
next
  case (Cons x ks)
  then show ?case using assms(2) by auto
qed

lemma count_list_map_other:
  assumes "\<And>k. g k \<noteq> y"
  shows "count_list (map g ks) y = 0"
  using assms by (induction ks) auto

lemma report_coverage_results:
  "errors (results (report_coverage a))
     = errors (results a)
       @ map missing_msg (sorted_list_of_set (event_types_go a - event_types_bruno a))
       @ map extra_msg (sorted_list_of_set (event_types_bruno a - event_types_go a))"
  "failed (results (report_coverage a))
     = failed (results a)
       + length (sorted_list_of_set (event_types_go a - event_types_bruno a))
       + length (sorted_list_of_set (event_types_bruno a - event_types_go a))"
  "warnings (results (report_coverage a)) = warnings (results a)"
  by (simp_all add: report_coverage_def Let_def fold_add_error)

lemma coverage_issues_eq:
  "coverage_issues a
     = map missing_msg (sorted_list_of_set (event_types_go a - event_types_bruno a))
       @ map extra_msg (sorted_list_of_set (event_types_bruno a - event_types_go a))"
  by (simp add: coverage_issues_def report_coverage_results new_result_def)

text \<open>
  C4. With the canonical set finite and the observed set the event types of the loaded
  samples, as in every run: for every canonical event type that is the event type of no
  loaded sample exactly one missing-coverage error is recorded, for every event type of
  a loaded sample that is not canonical exactly one unknown-type error, nothing else,
  and nothing at all when the two sets are equal.
\<close>

theorem coverage_errors:
  assumes "finite (event_types_go a)"
    and "event_types_bruno a = event_type ` set (bruno_events a)"
  shows "count_list (coverage_issues a) (missing_msg t)
           = (if t \<in> event_types_go a \<and> (\<forall>e \<in> set (bruno_events a). event_type e \<noteq> t)
              then 1 else 0)
         \<and> count_list (coverage_issues a) (extra_msg t)
           = (if (\<exists>e \<in> set (bruno_events a). event_type e = t) \<and> t \<notin> event_types_go a
              then 1 else 0)
         \<and> set (coverage_issues a)
           = missing_msg ` (event_types_go a - event_type ` set (bruno_events a))
             \<union> extra_msg ` (event_type ` set (bruno_events a) - event_types_go a)
         \<and> (event_types_go a = event_type ` set (bruno_events a) \<longrightarrow> coverage_issues a = [])
         \<and> errors (results (report_coverage a)) = errors (results a) @ coverage_issues a
         \<and> failed (results (report_coverage a))
           = failed (results a) + length (coverage_issues a)"
proof -
  let ?go = "event_types_go a" and ?obs = "event_type ` set (bruno_events a)"
  let ?ms = "sorted_list_of_set (?go - ?obs)" and ?xs = "sorted_list_of_set (?obs - ?go)"
  have fin: "finite (?go - ?obs)" "finite (?obs - ?go)"
    using assms(1) by simp_all
  have ci: "coverage_issues a = map missing_msg ?ms @ map extra_msg ?xs"
    by (simp add: coverage_issues_eq assms(2))
  have m: "count_list (map missing_msg ?ms) (missing_msg t) = (if t \<in> ?go - ?obs then 1 else 0)"
    using count_list_map_inj [where g = missing_msg and ks = ?ms and k = t] fin
    by (simp add: missing_msg_inj)
  have x: "count_list (map extra_msg ?xs) (extra_msg t) = (if t \<in> ?obs - ?go then 1 else 0)"
    using count_list_map_inj [where g = extra_msg and ks = ?xs and k = t] fin
    by (simp add: extra_msg_inj)
  have mx: "count_list (map extra_msg ?xs) (missing_msg t) = 0"
    by (rule count_list_map_other) (simp add: missing_msg_not_extra [symmetric])
  have xm: "count_list (map missing_msg ?ms) (extra_msg t) = 0"
    by (rule count_list_map_other) (simp add: missing_msg_not_extra)
  have c1: "count_list (coverage_issues a) (missing_msg t)
           = (if t \<in> ?go \<and> (\<forall>e \<in> set (bruno_events a). event_type e \<noteq> t) then 1 else 0)"
    unfolding ci by (simp add: m mx) blast
  have c2: "count_list (coverage_issues a) (extra_msg t)
           = (if (\<exists>e \<in> set (bruno_events a). event_type e = t) \<and> t \<notin> ?go then 1 else 0)"
    unfolding ci by (simp add: x xm) blast
  have s: "set (coverage_issues a) = missing_msg ` (?go - ?obs) \<union> extra_msg ` (?obs - ?go)"
    unfolding ci using fin by simp
  have e: "?go = ?obs \<Longrightarrow> coverage_issues a = []"
    unfolding ci by simp
  have r: "errors (results (report_coverage a)) = errors (results a) @ coverage_issues a"
    "failed (results (report_coverage a)) = failed (results a) + length (coverage_issues a)"
    by (simp_all add: report_coverage_results coverage_issues_eq)
  show ?thesis
    using c1 c2 s e r by blast
qed

theorem coverage_errors_witness:
  "count_list (coverage_issues ex_small) (missing_msg ''y'') = 1
   \<and> count_list (coverage_issues ex_small) (missing_msg ''x'') = 0
   \<and> count_list (coverage_issues ex_small) (extra_msg ''x'') = 0
   \<and> set (coverage_issues ex_small) = {missing_msg ''y'', missing_msg ''z''}"
proof -
  have h: "finite (event_types_go ex_small)"
    "event_types_bruno ex_small = event_type ` set (bruno_events ex_small)"
    by (simp_all add: ex_small_def)
  have g: "event_types_go ex_small = {''x'', ''y'', ''z''}"
    "event_type ` set (bruno_events ex_small) = {''x''}"
    by (simp_all add: ex_small_def)
  have d: "{''x'', ''y'', ''z''} - {''x''} = {''y'', ''z''}" "{''x''} - {''x'', ''y'', ''z''} = ({} :: string set)"
    by auto
  show ?thesis
    using coverage_errors [OF h, of "''y''"] coverage_errors [OF h, of "''x''"]
    by (simp add: d ex_small_def)
qed

subsection \<open>Loading the corpus\<close>

lemma load_file_no_body:
  "search_body_json lib (read_text f) = None \<Longrightarrow> load_file lib f a = Some a"
  by (simp add: load_file_def parse_bru_file_def Let_def)

lemma load_files_append:
  "load_files lib (xs @ ys) a
     = (case load_files lib xs a of None \<Rightarrow> None | Some b \<Rightarrow> load_files lib ys b)"
  by (induction xs arbitrary: a) (simp_all split: option.splits)

lemma load_files_filter_no_body:
  assumes "search_body_json lib (read_text f) = None"
  shows "load_files lib (filter (\<lambda>g. g \<noteq> f) xs) a = load_files lib xs a"
proof (induction xs arbitrary: a)
  case Nil
  show ?case by simp
next
  case (Cons x xs)
  show ?case
    by (cases "x = f") (simp_all add: Cons.IH load_file_no_body [OF assms] split: option.splits)
qed

text \<open>
  C9. A file with no body block that the \<^verbatim>\<open>body:json\<close> pattern matches is
  skipped in silence: \<^verbatim>\<open>parse_bru_file\<close> returns \<^verbatim>\<open>None\<close> and records
  nothing, the loader's state is unchanged, and the whole run is the run over the
  directory without the file.
\<close>

theorem no_body_block_skipped:
  assumes "search_body_json lib (read_text f) = None"
  shows "parse_bru_file lib f r = Some (Returned None, r)
         \<and> load_file lib f a = Some a
         \<and> load_files lib (xs @ f # ys) a = load_files lib (xs @ ys) a
         \<and> (bruno_dir fs = Some files
            \<longrightarrow> run_audit lib fs = run_audit lib (fs\<lparr>bruno_dir := Some (removeAll f files)\<rparr>))"
proof -
  have p: "parse_bru_file lib f r = Some (Returned None, r)"
    using assms by (simp add: parse_bru_file_def Let_def)
  have l: "load_file lib f b = Some b" for b
    by (rule load_file_no_body [OF assms])
  have m: "load_files lib (xs @ f # ys) a = load_files lib (xs @ ys) a"
    by (simp add: load_files_append l split: option.splits)
  have d: "run_audit lib fs = run_audit lib (fs\<lparr>bruno_dir := Some (removeAll f files)\<rparr>)"
    if "bruno_dir fs = Some files"
  proof -
    let ?fs = "fs\<lparr>bruno_dir := Some (removeAll f files)\<rparr>"
    have s: "sort_key path_name (removeAll f files)
            = filter (\<lambda>g. g \<noteq> f) (sort_key path_name files)"
      by (simp add: removeAll_filter_not_eq filter_sort eq_commute)
    have g: "parse_go_struct lib ?fs b = parse_go_struct lib fs b" for b
      by (simp add: parse_go_struct_def split: option.splits)
    have e: "parse_event_types_enum lib ?fs b = parse_event_types_enum lib fs b" for b
      by (simp add: parse_event_types_enum_def split: option.splits)
    have b: "parse_bruno_files lib ?fs b = parse_bruno_files lib fs b" for b
      using that by (simp add: parse_bruno_files_def s load_files_filter_no_body [OF assms])
    show ?thesis
      by (simp only: run_audit_def g e b)
  qed
  show ?thesis
    using p l m d by blast
qed


theorem no_body_block_skipped_witness:
  "load_file ex_lib ex_no_body_file new_auditor = Some new_auditor
   \<and> run_audit ex_lib ex_fs = run_audit ex_lib (ex_fs\<lparr>bruno_dir := Some [ex_jump_file]\<rparr>)"
proof -
  have a: "search_body_json ex_lib (read_text ex_no_body_file) = None"
    by (simp add: ex_lib_def ex_no_body_file_def)
  have b: "bruno_dir ex_fs = Some [ex_no_body_file, ex_jump_file]"
    by (simp add: ex_fs_def)
  have c: "removeAll ex_no_body_file [ex_no_body_file, ex_jump_file] = [ex_jump_file]"
    by (simp add: ex_no_body_file_def ex_jump_file_def)
  note t = no_body_block_skipped [OF a, where a = new_auditor and fs = ex_fs
      and files = "[ex_no_body_file, ex_jump_file]"]
  show ?thesis
    using t [THEN conjunct2, THEN conjunct1]
      t [THEN conjunct2, THEN conjunct2, THEN conjunct2, THEN mp, OF b]
    unfolding c by blast
qed

lemma load_file_same_corpus:
  assumes "same_corpus n a b"
  shows "rel_option (same_corpus n) (load_file lib f a) (load_file lib f b)"
  using assms unfolding load_file_def parse_bru_file_def same_corpus_def Let_def
  by (auto split: option.splits sum.splits json.splits outcome.splits)

lemma load_files_same_corpus:
  "same_corpus n a b \<Longrightarrow> rel_option (same_corpus n) (load_files lib fs a) (load_files lib fs b)"
proof (induction fs arbitrary: a b)
  case Nil
  then show ?case by simp
next
  case (Cons f fs)
  from load_file_same_corpus [OF Cons.prems, of lib f] show ?case
    by (cases rule: option.rel_cases) (simp_all add: Cons.IH)
qed

lemma load_file_invalid_json:
  assumes "search_body_json lib (read_text f) = Some g"
    and "json_loads lib (str_strip lib g) = Inl err"
  shows "load_file lib f a
         = Some (a\<lparr>results := add_error (path_name f @ '': Invalid JSON - '' @ err) (results a)\<rparr>)"
  using assms by (simp add: load_file_def parse_bru_file_def Let_def)

lemma load_file_corpus_inv:
  assumes "load_file lib f a = Some b"
    and "event_types_bruno a = event_type ` set (bruno_events a)"
  shows "event_types_bruno b = event_type ` set (bruno_events b)
         \<and> event_types_go b = event_types_go a \<and> go_fields b = go_fields a"
  using assms unfolding load_file_def
  by (auto split: option.splits outcome.splits)

lemma load_files_corpus_inv:
  "load_files lib fs a = Some b \<Longrightarrow> event_types_bruno a = event_type ` set (bruno_events a)
   \<Longrightarrow> event_types_bruno b = event_type ` set (bruno_events b)
       \<and> event_types_go b = event_types_go a \<and> go_fields b = go_fields a"
proof (induction fs arbitrary: a)
  case Nil
  then show ?case by simp
next
  case (Cons f fs)
  from Cons.prems(1) obtain c where c: "load_file lib f a = Some c" "load_files lib fs c = Some b"
    by (auto split: option.splits)
  from load_file_corpus_inv [OF c(1) Cons.prems(2)] Cons.IH [OF c(2)] show ?case
    by simp
qed

lemma finite_fold_insert: "finite A \<Longrightarrow> finite (fold insert xs A)"
  by (induction xs arbitrary: A) simp_all

text \<open>
  Every run reaches the coverage check with a finite canonical set and with the observed
  set equal to the event types of the loaded samples.
\<close>

lemma loaded_corpus:
  assumes "parse_bruno_files lib fs
             (parse_event_types_enum lib fs (parse_go_struct lib fs new_auditor)) = Some a"
  shows "finite (event_types_go a) \<and> event_types_bruno a = event_type ` set (bruno_events a)"
proof -
  let ?b = "parse_event_types_enum lib fs (parse_go_struct lib fs new_auditor)"
  have b: "finite (event_types_go ?b)" "event_types_bruno ?b = event_type ` set (bruno_events ?b)"
    by (simp_all add: parse_event_types_enum_def parse_go_struct_def new_auditor_def
        finite_fold_insert split: option.splits)
  show ?thesis
  proof (cases "bruno_dir fs")
    case None
    with assms b show ?thesis
      by (auto simp: parse_bruno_files_def)
  next
    case (Some files)
    with assms have "load_files lib (sort_key path_name files) ?b = Some a"
      by (simp add: parse_bruno_files_def)
    from load_files_corpus_inv [OF this b(2)] b(1) show ?thesis
      by simp
  qed
qed

lemma passes_keep_corpus:
  "bruno_events (validate_bruno_payloads a) = bruno_events a"
  "event_types_go (validate_bruno_payloads a) = event_types_go a"
  "event_types_bruno (validate_bruno_payloads a) = event_types_bruno a"
  "bruno_events (validate_guid_fields a) = bruno_events a"
  "event_types_go (validate_guid_fields a) = event_types_go a"
  "event_types_bruno (validate_guid_fields a) = event_types_bruno a"
  "bruno_events (reconcile_counts a) = bruno_events a"
  "event_types_go (reconcile_counts a) = event_types_go a"
  "event_types_bruno (reconcile_counts a) = event_types_bruno a"
  by (simp_all add: validate_bruno_payloads_def validate_guid_fields_def reconcile_counts_def
      Let_def)

text \<open>
  So the hypotheses of the coverage theorem hold where \<^verbatim>\<open>run_audit\<close> reaches the
  coverage check.
\<close>

lemma coverage_check_reached:
  assumes "parse_bruno_files lib fs
             (parse_event_types_enum lib fs (parse_go_struct lib fs new_auditor)) = Some a"
  shows "finite (event_types_go (reconcile_counts (validate_guid_fields (validate_bruno_payloads a))))
         \<and> event_types_bruno (reconcile_counts (validate_guid_fields (validate_bruno_payloads a)))
           = event_type ` set (bruno_events
               (reconcile_counts (validate_guid_fields (validate_bruno_payloads a))))"
  using loaded_corpus [OF assms] by (simp add: passes_keep_corpus)

text \<open>
  C6. A file whose body block fails to deserialize as JSON gets exactly one error, which
  names the file, and no sample: the corpus and the observed type set stay as they were,
  and loading a directory with the file leaves the same corpus, type sets and sample
  count as loading it without the file, with one failure more.
\<close>

theorem invalid_json_dropped:
  assumes "search_body_json lib (read_text f) = Some g"
    and "json_loads lib (str_strip lib g) = Inl err"
  shows "load_file lib f a
           = Some (a\<lparr>results :=
                     add_error (path_name f @ '': Invalid JSON - '' @ err) (results a)\<rparr>)
         \<and> sublist (path_name f) (path_name f @ '': Invalid JSON - '' @ err)
         \<and> rel_option (same_corpus 1)
             (load_files lib (xs @ f # ys) a) (load_files lib (xs @ ys) a)"
proof -
  have l: "load_file lib f b
           = Some (b\<lparr>results :=
                     add_error (path_name f @ '': Invalid JSON - '' @ err) (results b)\<rparr>)" for b
    by (rule load_file_invalid_json [OF assms])
  have "rel_option (same_corpus 1) (load_files lib (xs @ f # ys) a) (load_files lib (xs @ ys) a)"
  proof (cases "load_files lib xs a")
    case None
    then show ?thesis by (simp add: load_files_append)
  next
    case (Some b)
    have "same_corpus 1
            (b\<lparr>results := add_error (path_name f @ '': Invalid JSON - '' @ err) (results b)\<rparr>) b"
      by (simp add: same_corpus_def)
    from load_files_same_corpus [OF this, of lib ys] show ?thesis
      by (simp add: load_files_append Some l)
  qed
  then show ?thesis
    by (simp add: l)
qed

theorem invalid_json_dropped_witness:
  "load_file ex_lib ex_bad_file new_auditor
     = Some (new_auditor\<lparr>results :=
               add_error ''bad.bru: Invalid JSON - Expecting value: line 1 column 1 (char 0)''
                 new_result\<rparr>)
   \<and> rel_option (same_corpus 1)
       (load_files ex_lib [ex_bad_file, ex_jump_file] new_auditor)
       (load_files ex_lib [ex_jump_file] new_auditor)"
proof -
  have a: "search_body_json ex_lib (read_text ex_bad_file) = Some ''{oops''"
    "json_loads ex_lib (str_strip ex_lib ''{oops'')
       = Inl ''Expecting value: line 1 column 1 (char 0)''"
    by (simp_all add: ex_lib_def ex_bad_file_def)
  have n: "path_name ex_bad_file = ''bad.bru''" "results new_auditor = new_result"
    by (simp_all add: ex_bad_file_def new_auditor_def)
  show ?thesis
    using invalid_json_dropped [OF a, of new_auditor "[]" "[ex_jump_file]"]
    by (simp add: n del: load_files.simps)
qed

end
